theory Spec2Isabelle
  imports Main "HOL-Library.Sublist"
begin

section \<open>The upload form controller of static/script.js\<close>

text \<open>
  The script attaches two asynchronous handlers to a page: the form's submit handler
  (the primary upload to /upload-file/) and the debug button's click handler (the echo
  request to /debug-form/). Both read the same four inputs, show a spinner, send one
  multipart POST and render the answer.

  The page and everything the handlers touch is one record that is passed through and
  returned updated. Calls that leave the page (alert, console.error, fetch,
  URL.createObjectURL) append to logs kept in that record. An asynchronous handler is cut at
  its awaits into segments; each segment is a function from the page to the new page and the
  way the segment ended. Exceptions and promise rejections are values.

  Strings are byte lists (UTF-8). The two regular expressions of the script only
  distinguish the ASCII characters dot, slash and the decimal digits, which no
  multi-byte sequence contains, so they act on the bytes as they act on JavaScript's
  code units.
\<close>

subsection \<open>Values\<close>

type_synonym blob = string

text \<open>A File of \<open>fileInput.files\<close>.\<close>

record file_obj =
  name :: string
  content :: blob

text \<open>
  A number produced by \<open>JSON.parse\<close> is an IEEE double in the engine. The script never
  computes with one; it converts it to a boolean and to text. A number is therefore kept
  as what these conversions see of it: whether it is zero, whether it is finite, and the
  decimal text the engine prints for it.
\<close>

record js_number =
  is_zero :: bool
  is_finite :: bool
  number_text :: string

text \<open>
  A value produced by \<open>JSON.parse\<close>. An object holds its own properties in the order in
  which the engine enumerates them; their names are distinct.
\<close>

datatype json =
    JNull
  | JBool bool
  | JNum js_number
  | JStr string
  | JArr "json list"
  | JObj "(string \<times> json) list"

datatype js_error = TypeError | SyntaxError | NetworkFailure

text \<open>How a promise settles.\<close>

datatype 'a settled = Fulfilled 'a | Rejected js_error

text \<open>
  A Response: its status, and how the promises returned by \<open>resp.blob()\<close> and
  \<open>resp.json()\<close> settle (\<open>resp.json()\<close> rejects when the body cannot be read or is not
  JSON).
\<close>

record response =
  status :: nat
  blob_body :: "blob settled"
  json_body :: "json settled"

definition ok :: "response \<Rightarrow> bool" where
  "ok resp = (200 \<le> status resp \<and> status resp \<le> 299)"

text \<open>FormData: the appended entries, in order.\<close>

datatype form_value = Text string | FileEntry file_obj

type_synonym form_data = "(string \<times> form_value) list"

definition fd_append :: "string \<Rightarrow> form_value \<Rightarrow> form_data \<Rightarrow> form_data" where
  "fd_append field v fd = fd @ [(field, v)]"

record request =
  url :: string
  http_method :: string
  body :: form_data

text \<open>
  The target of the download link: what the markup gave it, or an object URL, named by
  its position in the store of object URLs.
\<close>

datatype href = MarkupHref string | ObjectURL nat

subsection \<open>The page\<close>

text \<open>
  The first nine fields are the properties of the elements the script reads and
  writes. The last four are the logs of calls that leave the page: the messages passed to
  \<open>alert\<close>, the errors passed to \<open>console.error\<close>, the requests handed to \<open>fetch\<close>,
  and the store of object URLs made by \<open>URL.createObjectURL\<close> (entry \<open>i\<close> is the blob
  that \<open>ObjectURL i\<close> refers to; releasing a URL would take its entry away).
\<close>

record page =
  product_value :: string
  version_value :: string
  app_id_value :: string
  fileInput_files :: "file_obj list"
  spinner_display :: string
  result_display :: string
  downloadLink_href :: href
  downloadLink_download :: string
  debugResponse_textContent :: string
  alerts :: "string list"
  console_errors :: "js_error list"
  requests :: "request list"
  object_urls :: "blob list"

definition showSpinner :: "page \<Rightarrow> page" where
  "showSpinner s = s\<lparr>spinner_display := ''block''\<rparr>"

definition hideSpinner :: "page \<Rightarrow> page" where
  "hideSpinner s = s\<lparr>spinner_display := ''none''\<rparr>"

definition alert :: "string \<Rightarrow> page \<Rightarrow> page" where
  "alert msg s = s\<lparr>alerts := alerts s @ [msg]\<rparr>"

definition console_error :: "js_error \<Rightarrow> page \<Rightarrow> page" where
  "console_error err s = s\<lparr>console_errors := console_errors s @ [err]\<rparr>"

definition fetch :: "string \<Rightarrow> string \<Rightarrow> form_data \<Rightarrow> page \<Rightarrow> page" where
  "fetch u m fd s = s\<lparr>requests := requests s @ [\<lparr>url = u, http_method = m, body = fd\<rparr>]\<rparr>"

definition createObjectURL :: "blob \<Rightarrow> page \<Rightarrow> href \<times> page" where
  "createObjectURL b s =
     (ObjectURL (length (object_urls s)), s\<lparr>object_urls := object_urls s @ [b]\<rparr>)"

subsection \<open>The regular expressions\<close>

text \<open>\<open>/^\d+$/.test(s)\<close>: from the first position, one or more digits up to the end.\<close>

definition is_digit :: "char \<Rightarrow> bool" where
  "is_digit c = (c \<in> set ''0123456789'')"

fun digits_to_end :: "string \<Rightarrow> bool" where
  "digits_to_end [] = False"
| "digits_to_end (c # cs) = (is_digit c \<and> (cs = [] \<or> digits_to_end cs))"

definition test_numeric :: "string \<Rightarrow> bool" where
  "test_numeric s = digits_to_end s"

text \<open>
  \<open>/\.[^/.]+$/\<close>: a dot, then one or more characters that are neither slash nor dot, up
  to the end. \<open>ext_exec\<close> tries the positions from left to right, as the engine does,
  and gives the text before the first match and the matched text.
\<close>

definition ext_char :: "char \<Rightarrow> bool" where
  "ext_char c = (c \<noteq> CHR ''/'' \<and> c \<noteq> CHR ''.'')"

fun ext_chars_to_end :: "string \<Rightarrow> bool" where
  "ext_chars_to_end [] = False"
| "ext_chars_to_end (c # cs) = (ext_char c \<and> (cs = [] \<or> ext_chars_to_end cs))"

fun ext_at :: "string \<Rightarrow> bool" where
  "ext_at [] = False"
| "ext_at (c # cs) = (c = CHR ''.'' \<and> ext_chars_to_end cs)"

fun ext_exec :: "string \<Rightarrow> (string \<times> string) option" where
  "ext_exec [] = None"
| "ext_exec (c # cs) =
     (if ext_at (c # cs) then Some ([], c # cs)
      else (case ext_exec cs of None \<Rightarrow> None | Some (pre, m) \<Rightarrow> Some (c # pre, m)))"

text \<open>
  \<open>s.replace(/\.[^/.]+$/, r)\<close>: the match runs to the end of \<open>s\<close>, so nothing follows
  the replacement. \<open>s.match(/\.[^/.]+$/)\<close>: null, or an array holding the matched text.
\<close>

definition replace_ext :: "string \<Rightarrow> string \<Rightarrow> string" where
  "replace_ext s r = (case ext_exec s of None \<Rightarrow> s | Some (pre, m) \<Rightarrow> pre @ r)"

definition match_ext :: "string \<Rightarrow> string list option" where
  "match_ext s = (case ext_exec s of None \<Rightarrow> None | Some (pre, m) \<Rightarrow> Some [m])"

text \<open>An array of strings converted to a string: its elements joined by commas.\<close>

fun join :: "string \<Rightarrow> string list \<Rightarrow> string" where
  "join sep [] = []"
| "join sep [x] = x"
| "join sep (x # y # ys) = x @ sep @ join sep (y # ys)"

text \<open>Line 53: the file name offered for the download.\<close>

definition download_name :: "string \<Rightarrow> string" where
  "download_name n =
     replace_ext n [] @ ''_processed'' @
     (case match_ext n of None \<Rightarrow> [] | Some arr \<Rightarrow> join '','' arr)"

subsection \<open>Conversions of the engine\<close>

text \<open>A status code as the decimal text that a template literal gives it.\<close>

fun show_nat :: "nat \<Rightarrow> string" where
  "show_nat n =
     (if n < 10 then [''0123456789'' ! n]
      else show_nat (n div 10) @ [''0123456789'' ! (n mod 10)])"

declare show_nat.simps [simp del]

text \<open>
  ToBoolean on a parsed value: null, false, zero and the empty string are falsy,
  everything else (every array and object too) is truthy.
\<close>

fun truthy :: "json \<Rightarrow> bool" where
  "truthy JNull = False"
| "truthy (JBool b) = b"
| "truthy (JNum n) = (\<not> is_zero n)"
| "truthy (JStr s) = (s \<noteq> [])"
| "truthy (JArr xs) = True"
| "truthy (JObj ps) = True"

text \<open>
  Reading the property \<open>key\<close> of a parsed value, \<open>None\<close> for undefined. The script
  reads \<open>error\<close> and \<open>detail\<close> only; no prototype defines either, so the read finds an
  object's own property or nothing, and nothing on a string, number, boolean or array.
\<close>

definition get_property :: "json \<Rightarrow> string \<Rightarrow> json option" where
  "get_property j key = (case j of JObj ps \<Rightarrow> map_of ps key | _ \<Rightarrow> None)"

text \<open>The value of \<open>j && j.key\<close>: \<open>j\<close> itself when \<open>j\<close> is falsy.\<close>

definition and_property :: "json \<Rightarrow> string \<Rightarrow> json option" where
  "and_property j key = (if truthy j then get_property j key else Some j)"

definition truthy_value :: "json option \<Rightarrow> bool" where
  "truthy_value v = (case v of None \<Rightarrow> False | Some j \<Rightarrow> truthy j)"

text \<open>
  ToString, as a template literal applies it. An array is joined by commas, with null
  elements as the empty text. An object answers \<open>[object Object]\<close> through
  \<open>Object.prototype.toString\<close>, unless it has an own property \<open>toString\<close>: that value
  came from JSON and cannot be called, \<open>valueOf\<close> gives no primitive either, and the
  conversion throws a TypeError.
\<close>

fun to_string :: "json \<Rightarrow> js_error + string"
and join_elements :: "json list \<Rightarrow> js_error + string" where
  "to_string JNull = Inr ''null''"
| "to_string (JBool b) = Inr (if b then ''true'' else ''false'')"
| "to_string (JNum n) = Inr (number_text n)"
| "to_string (JStr s) = Inr s"
| "to_string (JArr xs) = join_elements xs"
| "to_string (JObj ps) =
     (if map_of ps ''toString'' \<noteq> None then Inl TypeError else Inr ''[object Object]'')"
| "join_elements [] = Inr []"
| "join_elements (x # xs) =
     (case (if x = JNull then Inr [] else to_string x) of
        Inl e \<Rightarrow> Inl e
      | Inr t \<Rightarrow>
          (if xs = [] then Inr t
           else (case join_elements xs of
                   Inl e \<Rightarrow> Inl e
                 | Inr r \<Rightarrow> Inr (t @ '','' @ r))))"

text \<open>
  \<open>JSON.stringify\<close>. A string is quoted with the escapes of QuoteJSONString; a number
  that is not finite is written null; \<open>gap\<close> is the indentation unit (empty for the
  compact form) and \<open>ind\<close> the current indentation. A property \<open>toJSON\<close> of a
  parsed object cannot be called and is written like any other.
\<close>

definition hex_digit :: "nat \<Rightarrow> char" where
  "hex_digit n = ''0123456789abcdef'' ! (n mod 16)"

definition quote_char :: "char \<Rightarrow> string" where
  "quote_char c =
     (if c = CHR 0x08 then [CHR 0x5C, CHR ''b'']
      else if c = CHR 0x09 then [CHR 0x5C, CHR ''t'']
      else if c = CHR 0x0A then [CHR 0x5C, CHR ''n'']
      else if c = CHR 0x0C then [CHR 0x5C, CHR ''f'']
      else if c = CHR 0x0D then [CHR 0x5C, CHR ''r'']
      else if c = CHR 0x22 then [CHR 0x5C, CHR 0x22]
      else if c = CHR 0x5C then [CHR 0x5C, CHR 0x5C]
      else if (of_char c :: nat) < 32
        then [CHR 0x5C, CHR ''u'', CHR ''0'', CHR ''0'',
              hex_digit (of_char c div 16), hex_digit (of_char c mod 16)]
      else [c])"

definition quote :: "string \<Rightarrow> string" where
  "quote s = [CHR 0x22] @ concat (map quote_char s) @ [CHR 0x22]"

definition wrap :: "string \<Rightarrow> string \<Rightarrow> string \<Rightarrow> string \<Rightarrow> string list \<Rightarrow> string" where
  "wrap opening closing gap ind parts =
     (if parts = [] then opening @ closing
      else if gap = [] then opening @ join '','' parts @ closing
      else opening @ [CHR 0x0A] @ (ind @ gap) @
           join ('','' @ [CHR 0x0A] @ (ind @ gap)) parts @
           [CHR 0x0A] @ ind @ closing)"

fun serialize :: "string \<Rightarrow> string \<Rightarrow> json \<Rightarrow> string"
and serialize_elements :: "string \<Rightarrow> string \<Rightarrow> json list \<Rightarrow> string list"
and serialize_members ::
  "string \<Rightarrow> string \<Rightarrow> (string \<times> json) list \<Rightarrow> string list" where
  "serialize gap ind JNull = ''null''"
| "serialize gap ind (JBool b) = (if b then ''true'' else ''false'')"
| "serialize gap ind (JNum n) = (if is_finite n then number_text n else ''null'')"
| "serialize gap ind (JStr s) = quote s"
| "serialize gap ind (JArr xs) =
     wrap ''['' '']'' gap ind (serialize_elements gap (ind @ gap) xs)"
| "serialize gap ind (JObj ps) =
     wrap ''{'' ''}'' gap ind (serialize_members gap (ind @ gap) ps)"
| "serialize_elements gap ind [] = []"
| "serialize_elements gap ind (x # xs) =
     serialize gap ind x # serialize_elements gap ind xs"
| "serialize_members gap ind [] = []"
| "serialize_members gap ind ((k, v) # ps) =
     (quote k @ '':'' @ (if gap = [] then [] else '' '') @ serialize gap ind v)
     # serialize_members gap ind ps"

text \<open>\<open>JSON.stringify(v)\<close> and \<open>JSON.stringify(v, null, 2)\<close>.\<close>

definition json_stringify :: "json \<Rightarrow> string" where
  "json_stringify v = serialize [] [] v"

definition json_stringify_pretty :: "json \<Rightarrow> string" where
  "json_stringify_pretty v = serialize ''  '' [] v"

subsection \<open>Asynchronous handlers, cut at their awaits\<close>

text \<open>
  What a handler is waiting for when it is suspended, with the local variables it still
  needs: the response, and in the error branch the message \<open>msg\<close> prepared on line 57.
\<close>

datatype awaiting =
    SubmitFetch
  | SubmitBlob response
  | SubmitJson response string
  | DebugFetch
  | DebugJson response

text \<open>
  How a segment ends: the handler returned, it is suspended at an await, or an exception
  left it.
\<close>

datatype completion = Returned | Awaiting awaiting | Threw js_error

subsection \<open>The submit handler (lines 21 to 73)\<close>

text \<open>
  Lines 22 to 48: the two resets, the two checks, the FormData, the spinner and the
  call of \<open>fetch\<close>. The event's \<open>preventDefault\<close> only keeps the browser from
  submitting the form itself and is not part of the page record.
\<close>

definition submit_start :: "page \<Rightarrow> page \<times> completion" where
  "submit_start s0 =
     (let s = s0\<lparr>debugResponse_textContent := [], result_display := ''none''\<rparr>;
          product = product_value s;
          version = version_value s;
          app_id = app_id_value s
      in if length (fileInput_files s) = 0
           then (alert ''Please select a file to upload.'' s, Returned)
         else if app_id = [] \<or> \<not> test_numeric app_id
           then (alert ''Please choose a numeric App ID.'' s, Returned)
         else
           (let fd = fd_append ''file'' (FileEntry (fileInput_files s ! 0))
                       (fd_append ''app_id'' (Text app_id)
                         (fd_append ''version'' (Text version)
                           (fd_append ''product'' (Text product) [])))
            in (fetch ''/upload-file/'' ''POST'' fd (showSpinner s), Awaiting SubmitFetch)))"

text \<open>
  The try statement of lines 47 to 72 around a segment of its block: a segment that
  suspends stays inside the block; one that ends the block runs the finally clause; an
  exception runs the catch clause and then the finally clause.
\<close>

definition submit_try ::
  "(page \<Rightarrow> page \<times> completion) \<Rightarrow> page \<Rightarrow> page \<times> completion" where
  "submit_try block s =
     (case block s of
        (s', Awaiting k) \<Rightarrow> (s', Awaiting k)
      | (s', Returned) \<Rightarrow> (hideSpinner s', Returned)
      | (s', Threw err) \<Rightarrow>
          (hideSpinner
             (alert ''Network or unexpected error while uploading.'' (console_error err s')),
           Returned))"

text \<open>Lines 48, 49, 50, 57 and 59: after \<open>fetch\<close> has settled, up to the next await.\<close>

definition submit_after_fetch ::
  "response settled \<Rightarrow> page \<Rightarrow> page \<times> completion" where
  "submit_after_fetch r =
     submit_try (\<lambda>s.
       (case r of
          Rejected err \<Rightarrow> (s, Threw err)
        | Fulfilled resp \<Rightarrow>
            if ok resp then (s, Awaiting (SubmitBlob resp))
            else (let msg = ''Error: '' @ show_nat (status resp)
                  in (s, Awaiting (SubmitJson resp msg)))))"

text \<open>
  Lines 50 to 55: after \<open>resp.blob()\<close> has settled. Line 53 reads
  \<open>fileInput.files[0].name\<close> again; with no file selected by then, \<open>files[0]\<close> is
  undefined and the read throws, after lines 51 and 52 have run.
\<close>

definition submit_after_blob :: "blob settled \<Rightarrow> page \<Rightarrow> page \<times> completion" where
  "submit_after_blob r =
     submit_try (\<lambda>s.
       (case r of
          Rejected err \<Rightarrow> (s, Threw err)
        | Fulfilled b \<Rightarrow>
            (let (u, s1) = createObjectURL b s;
                 s2 = s1\<lparr>downloadLink_href := u\<rparr>
             in (case fileInput_files s2 of
                   [] \<Rightarrow> (s2, Threw TypeError)
                 | f # fs \<Rightarrow>
                     (let fname = download_name (name f)
                      in (s2\<lparr>downloadLink_download := fname, result_display := ''block''\<rparr>,
                          Returned))))))"

text \<open>
  Lines 59 to 61, the block of the inner try: the value of \<open>msg\<close> at its end, or the
  exception that leaves it (the rejection of \<open>resp.json()\<close>, or a TypeError of the
  template literal). An undefined value in a template literal reads \<open>undefined\<close>.
\<close>

definition error_message ::
  "string \<Rightarrow> json settled \<Rightarrow> js_error + string" where
  "error_message msg r =
     (case r of
        Rejected err \<Rightarrow> Inl err
      | Fulfilled j \<Rightarrow>
          if truthy_value (and_property j ''error'') then
            (case get_property j ''error'' of
               None \<Rightarrow> Inr ''Error: undefined''
             | Some e \<Rightarrow>
                 (case to_string e of
                    Inl err \<Rightarrow> Inl err
                  | Inr t \<Rightarrow> Inr (''Error: '' @ t)))
          else if truthy_value (and_property j ''detail'') then
            (case get_property j ''detail'' of
               None \<Rightarrow> Inr ''Error: undefined''
             | Some d \<Rightarrow> Inr (''Error: '' @ json_stringify d))
          else Inr msg)"

text \<open>
  Lines 58 to 65: the inner catch swallows the exception and leaves \<open>msg\<close> as it was;
  then the alert.
\<close>

definition submit_after_json ::
  "string \<Rightarrow> json settled \<Rightarrow> page \<Rightarrow> page \<times> completion" where
  "submit_after_json msg r =
     submit_try (\<lambda>s.
       (let msg' = (case error_message msg r of Inl err \<Rightarrow> msg | Inr m \<Rightarrow> m)
        in (alert msg' s, Returned)))"

subsection \<open>The debug handler (lines 76 to 104)\<close>

definition debug_start :: "page \<Rightarrow> page \<times> completion" where
  "debug_start s0 =
     (let s = s0\<lparr>debugResponse_textContent := []\<rparr>;
          product = product_value s;
          version = version_value s;
          app_id = app_id_value s
      in if length (fileInput_files s) = 0
           then (alert ''Please select a file to upload for debug.'' s, Returned)
         else
           (let fd = fd_append ''file'' (FileEntry (fileInput_files s ! 0))
                       (fd_append ''app_id'' (Text app_id)
                         (fd_append ''version'' (Text version)
                           (fd_append ''product'' (Text product) [])))
            in (fetch ''/debug-form/'' ''POST'' fd (showSpinner s), Awaiting DebugFetch)))"

text \<open>The try statement of lines 94 to 103.\<close>

definition debug_try ::
  "(page \<Rightarrow> page \<times> completion) \<Rightarrow> page \<Rightarrow> page \<times> completion" where
  "debug_try block s =
     (case block s of
        (s', Awaiting k) \<Rightarrow> (s', Awaiting k)
      | (s', Returned) \<Rightarrow> (hideSpinner s', Returned)
      | (s', Threw err) \<Rightarrow>
          (hideSpinner
             ((console_error err s')
                \<lparr>debugResponse_textContent := ''Error contacting debug endpoint.''\<rparr>),
           Returned))"

definition debug_after_fetch ::
  "response settled \<Rightarrow> page \<Rightarrow> page \<times> completion" where
  "debug_after_fetch r =
     debug_try (\<lambda>s.
       (case r of
          Rejected err \<Rightarrow> (s, Threw err)
        | Fulfilled resp \<Rightarrow> (s, Awaiting (DebugJson resp))))"

definition debug_after_json ::
  "json settled \<Rightarrow> page \<Rightarrow> page \<times> completion" where
  "debug_after_json r =
     debug_try (\<lambda>s.
       (case r of
          Rejected err \<Rightarrow> (s, Threw err)
        | Fulfilled j \<Rightarrow>
            (s\<lparr>debugResponse_textContent := json_stringify_pretty j\<rparr>, Returned)))"

subsection \<open>Running the handlers\<close>

text \<open>
  Resuming a suspended handler. \<open>net\<close> is how the network settles the \<open>fetch\<close>; it is
  read only when the handler waits for \<open>fetch\<close>. A body promise settles as its response
  says.
\<close>

definition resume ::
  "response settled \<Rightarrow> awaiting \<Rightarrow> page \<Rightarrow> page \<times> completion" where
  "resume net k s =
     (case k of
        SubmitFetch \<Rightarrow> submit_after_fetch net s
      | SubmitBlob resp \<Rightarrow> submit_after_blob (blob_body resp) s
      | SubmitJson resp msg \<Rightarrow> submit_after_json msg (json_body resp) s
      | DebugFetch \<Rightarrow> debug_after_fetch net s
      | DebugJson resp \<Rightarrow> debug_after_json (json_body resp) s)"

text \<open>
  One invocation from its first line to its end with nothing else happening on the page
  in between. No path through either handler has more than two awaits.
\<close>

definition run_handler ::
  "response settled \<Rightarrow> page \<times> completion \<Rightarrow> page \<times> completion" where
  "run_handler net r =
     (case r of
        (s1, Awaiting k1) \<Rightarrow>
          (case resume net k1 s1 of
             (s2, Awaiting k2) \<Rightarrow> resume net k2 s2
           | r2 \<Rightarrow> r2)
      | _ \<Rightarrow> r)"

definition submit_handler ::
  "response settled \<Rightarrow> page \<Rightarrow> page \<times> completion" where
  "submit_handler net s = run_handler net (submit_start s)"

definition debug_handler ::
  "response settled \<Rightarrow> page \<Rightarrow> page \<times> completion" where
  "debug_handler net s = run_handler net (debug_start s)"

text \<open>
  The page with its suspended handlers, and the events of the browser's single thread:
  the user edits the inputs, submits the form, clicks the debug button, or the promise
  that suspended handler \<open>i\<close> waits for settles. Nothing keeps the user from starting
  an action while another is suspended.
\<close>

record browser =
  doc :: page
  pending :: "awaiting list"

datatype event =
    UserInput string string string "file_obj list"
  | Submit
  | DebugClick
  | Settle nat "response settled"

definition spawn :: "page \<times> completion \<Rightarrow> awaiting list" where
  "spawn r = (case snd r of Awaiting k \<Rightarrow> [k] | _ \<Rightarrow> [])"

fun fire :: "event \<Rightarrow> browser \<Rightarrow> browser option" where
  "fire (UserInput p v a fs) w =
     Some (w\<lparr>doc := (doc w)\<lparr>product_value := p, version_value := v,
                             app_id_value := a, fileInput_files := fs\<rparr>\<rparr>)"
| "fire Submit w =
     (let r = submit_start (doc w)
      in Some \<lparr>doc = fst r, pending = pending w @ spawn r\<rparr>)"
| "fire DebugClick w =
     (let r = debug_start (doc w)
      in Some \<lparr>doc = fst r, pending = pending w @ spawn r\<rparr>)"
| "fire (Settle i net) w =
     (if i < length (pending w)
      then (let r = resume net (pending w ! i) (doc w)
            in Some \<lparr>doc = fst r,
                     pending = take i (pending w) @ spawn r @ drop (Suc i) (pending w)\<rparr>)
      else None)"

fun run :: "event list \<Rightarrow> browser \<Rightarrow> browser option" where
  "run [] w = Some w"
| "run (ev # evs) w =
     (case fire ev w of None \<Rightarrow> None | Some w' \<Rightarrow> run evs w')"

subsection \<open>One action at a time\<close>

text \<open>
  A sequence of events in which the user starts an action only while no handler is
  suspended.
\<close>

fun starts_action :: "event \<Rightarrow> bool" where
  "starts_action Submit = True"
| "starts_action DebugClick = True"
| "starts_action (UserInput p v a fs) = False"
| "starts_action (Settle i net) = False"

fun one_at_a_time :: "event list \<Rightarrow> browser \<Rightarrow> bool" where
  "one_at_a_time [] w = True"
| "one_at_a_time (ev # evs) w =
     ((starts_action ev \<longrightarrow> pending w = []) \<and>
      (case fire ev w of None \<Rightarrow> False | Some w' \<Rightarrow> one_at_a_time evs w'))"

text \<open>
  The spinner is shown only while a handler is suspended; and, for one action at a
  time, it is shown exactly then.
\<close>

definition calm :: "browser \<Rightarrow> bool" where
  "calm w = (spinner_display (doc w) = ''block'' \<longrightarrow> pending w \<noteq> [])"

definition in_step :: "browser \<Rightarrow> bool" where
  "in_step w =
     ((pending w = [] \<and> spinner_display (doc w) \<noteq> ''block'') \<or>
      (length (pending w) = 1 \<and> spinner_display (doc w) = ''block''))"

subsection \<open>The specification's wording\<close>

text \<open>
  The specification splits the file name at its last dot into a base and an extension
  (the extension starts with that dot); a name without a dot has the empty extension.
  The suggested name is the base, the suffix and the extension.
\<close>

definition spec_split :: "string \<Rightarrow> string \<times> string" where
  "spec_split n =
     (if CHR ''.'' \<in> set n
      then (let e = rev (takeWhile (\<lambda>c. c \<noteq> CHR ''.'') (rev n))
            in (take (length n - Suc (length e)) n, CHR ''.'' # e))
      else (n, []))"

definition spec_download_name :: "string \<Rightarrow> string" where
  "spec_download_name n = (case spec_split n of (base, ext) \<Rightarrow> base @ ''_processed'' @ ext)"

text \<open>
  The specification chooses the message of a failed upload by the fields the parsed
  body contains: \<open>error\<close> first, then \<open>detail\<close>, then the status code, which also
  stands when the body does not parse.
\<close>

definition spec_error_message :: "nat \<Rightarrow> json settled \<Rightarrow> js_error + string" where
  "spec_error_message st r =
     (case r of
        Rejected err \<Rightarrow> Inr (''Error: '' @ show_nat st)
      | Fulfilled j \<Rightarrow>
          (case get_property j ''error'' of
             Some e \<Rightarrow>
               (case to_string e of Inl err \<Rightarrow> Inl err | Inr t \<Rightarrow> Inr (''Error: '' @ t))
           | None \<Rightarrow>
               (case get_property j ''detail'' of
                  Some d \<Rightarrow> Inr (''Error: '' @ json_stringify d)
                | None \<Rightarrow> Inr (''Error: '' @ show_nat st))))"

text \<open>A field that is present with a truthy value.\<close>

definition truthy_field :: "json \<Rightarrow> string \<Rightarrow> json option" where
  "truthy_field j key =
     (case get_property j key of
        None \<Rightarrow> None
      | Some v \<Rightarrow> if truthy v then Some v else None)"

subsection \<open>Pages after the steps of a handler\<close>

text \<open>
  Names for the page after lines 23 and 24, after lines 40 to 48 (for the address
  \<open>u\<close>), after lines 51 and 52, and after the catch and finally clauses of the debug
  handler.
\<close>

definition cleared :: "page \<Rightarrow> page" where
  "cleared s = s\<lparr>debugResponse_textContent := [], result_display := ''none''\<rparr>"

definition sent :: "string \<Rightarrow> page \<Rightarrow> page" where
  "sent u s =
     fetch u ''POST''
       [(''product'', Text (product_value s)), (''version'', Text (version_value s)),
        (''app_id'', Text (app_id_value s)), (''file'', FileEntry (hd (fileInput_files s)))]
       (showSpinner s)"

definition linked :: "blob \<Rightarrow> page \<Rightarrow> page" where
  "linked b s =
     s\<lparr>object_urls := object_urls s @ [b],
       downloadLink_href := ObjectURL (length (object_urls s))\<rparr>"

definition debug_failed :: "js_error \<Rightarrow> page \<Rightarrow> page" where
  "debug_failed err s =
     hideSpinner
       ((console_error err s)\<lparr>debugResponse_textContent := ''Error contacting debug endpoint.''\<rparr>)"

subsection \<open>A page and responses to evaluate on\<close>

definition example_page :: page where
  "example_page =
     \<lparr>product_value = ''alpha'', version_value = ''1.0'', app_id_value = ''42'',
      fileInput_files = [\<lparr>name = ''report.pdf'', content = ''%PDF''\<rparr>],
      spinner_display = ''none'', result_display = ''none'',
      downloadLink_href = MarkupHref ''#'', downloadLink_download = [],
      debugResponse_textContent = [], alerts = [], console_errors = [],
      requests = [], object_urls = []\<rparr>"

definition idle_browser :: browser where
  "idle_browser = \<lparr>doc = example_page, pending = []\<rparr>"

definition processed_response :: response where
  "processed_response =
     \<lparr>status = 200, blob_body = Fulfilled ''processed'', json_body = Rejected SyntaxError\<rparr>"

definition error_response :: "json \<Rightarrow> response" where
  "error_response j = \<lparr>status = 400, blob_body = Fulfilled [], json_body = Fulfilled j\<rparr>"

section \<open>Properties\<close>

subsection \<open>The regular expressions\<close>

lemma digits_to_end_iff:
  "digits_to_end s \<longleftrightarrow> s \<noteq> [] \<and> set s \<subseteq> set ''0123456789''"
  by (induction s) (auto simp: is_digit_def)

lemma test_numeric_iff:
  "test_numeric s \<longleftrightarrow> s \<noteq> [] \<and> set s \<subseteq> set ''0123456789''"
  by (simp only: test_numeric_def digits_to_end_iff)

lemma ext_chars_to_end_iff:
  "ext_chars_to_end cs \<longleftrightarrow> cs \<noteq> [] \<and> (\<forall>c\<in>set cs. ext_char c)"
  by (induction cs) auto

text \<open>A dot followed by a non-empty run without dot or slash is where the match is.\<close>

lemma ext_exec_match:
  assumes "e \<noteq> []" and "\<forall>c\<in>set e. ext_char c"
  shows "ext_exec (b @ CHR ''.'' # e) = Some (b, CHR ''.'' # e)"
proof (induction b)
  case Nil
  from assms show ?case by (simp add: ext_chars_to_end_iff)
next
  case (Cons x b)
  have "\<not> ext_chars_to_end (b @ CHR ''.'' # e)"
    by (simp add: ext_chars_to_end_iff ext_char_def)
  with Cons show ?case by simp
qed

lemma ext_exec_Some:
  "ext_exec s = Some (p, m) \<Longrightarrow>
     s = p @ m \<and> (\<exists>e. m = CHR ''.'' # e \<and> e \<noteq> [] \<and> (\<forall>c\<in>set e. ext_char c))"
proof (induction s arbitrary: p m)
  case Nil
  then show ?case by simp
next
  case (Cons c cs)
  show ?case
  proof (cases "ext_at (c # cs)")
    case True
    with Cons.prems show ?thesis by (auto simp: ext_chars_to_end_iff)
  next
    case False
    with Cons.prems obtain p' where "ext_exec cs = Some (p', m)" and "p = c # p'"
      by (auto split: option.splits)
    with Cons.IH[of p' m] show ?thesis by simp
  qed
qed

lemma spec_split_last_dot:
  assumes "CHR ''.'' \<notin> set e"
  shows "spec_split (b @ CHR ''.'' # e) = (b, CHR ''.'' # e)"
proof -
  have "takeWhile (\<lambda>c. c \<noteq> CHR ''.'') (rev e @ CHR ''.'' # rev b) = rev e"
    using assms by (auto simp: takeWhile_append2 takeWhile_tail)
  then show ?thesis by (simp add: spec_split_def)
qed

lemma spec_split_no_dot: "CHR ''.'' \<notin> set n \<Longrightarrow> spec_split n = (n, [])"
  by (simp add: spec_split_def)

lemma last_dot_exists:
  assumes "CHR ''.'' \<in> set n"
  shows "\<exists>b e. n = b @ CHR ''.'' # e \<and> CHR ''.'' \<notin> set e"
proof -
  from assms have "CHR ''.'' \<in> set (rev n)" by simp
  then obtain ys zs where "rev n = ys @ CHR ''.'' # zs" and "CHR ''.'' \<notin> set ys"
    by (meson split_list_first)
  then have "n = rev zs @ CHR ''.'' # rev ys \<and> CHR ''.'' \<notin> set (rev ys)"
    by (metis rev_append rev.simps(2) rev_rev_ident append_Cons append_Nil append_assoc set_rev)
  then show ?thesis by blast
qed

lemma ext_exec_None_intro:
  assumes "\<And>p e. n = p @ CHR ''.'' # e \<Longrightarrow> e \<noteq> [] \<Longrightarrow> \<forall>c\<in>set e. ext_char c \<Longrightarrow> False"
  shows "ext_exec n = None"
proof (cases "ext_exec n")
  case None
  then show ?thesis .
next
  case (Some pm)
  then obtain p m where "ext_exec n = Some (p, m)" by (cases pm) auto
  from ext_exec_Some[OF this] assms show ?thesis by blast
qed

text \<open>
  The name computed on line 53 is the specification's name when the last dot is
  followed by at least one character and no slash follows it; in every other case the
  regular expression matches nowhere and the suffix is appended to the whole name.
\<close>

lemma download_name_cases:
  "download_name n =
     (if n \<noteq> [] \<and> last n \<noteq> CHR ''.'' \<and> CHR ''/'' \<notin> set (snd (spec_split n))
      then spec_download_name n else n @ ''_processed'')"
proof (cases "CHR ''.'' \<in> set n")
  case False
  then have "ext_exec n = None" by (intro ext_exec_None_intro) auto
  with False show ?thesis
    by (simp add: download_name_def replace_ext_def match_ext_def spec_download_name_def
        spec_split_no_dot)
next
  case True
  then obtain b e where n: "n = b @ CHR ''.'' # e" and e: "CHR ''.'' \<notin> set e"
    using last_dot_exists by blast
  have sp: "spec_split n = (b, CHR ''.'' # e)"
    using e n by (simp add: spec_split_last_dot)
  show ?thesis
  proof (cases "e \<noteq> [] \<and> CHR ''/'' \<notin> set e")
    case True
    then have "\<forall>c\<in>set e. ext_char c" using e by (auto simp: ext_char_def)
    with True have ex: "ext_exec n = Some (b, CHR ''.'' # e)"
      unfolding n by (simp add: ext_exec_match)
    have "last n = last e" using True n by simp
    moreover have "last e \<in> set e" using True by simp
    ultimately have "last n \<noteq> CHR ''.''" using e by metis
    then show ?thesis using True sp n ex
      by (simp add: download_name_def replace_ext_def match_ext_def spec_download_name_def)
  next
    case False
    have "ext_exec n = None"
    proof (rule ext_exec_None_intro)
      fix p e'
      assume n': "n = p @ CHR ''.'' # e'" and ne: "e' \<noteq> []" and cs: "\<forall>c\<in>set e'. ext_char c"
      then have "CHR ''.'' \<notin> set e'" by (auto simp: ext_char_def)
      with n' have "spec_split n = (p, CHR ''.'' # e')" by (simp add: spec_split_last_dot)
      with sp have "e' = e" by simp
      with False ne cs show False by (auto simp: ext_char_def)
    qed
    moreover have "last n = CHR ''.'' \<or> CHR ''/'' \<in> set e" using False n by auto
    ultimately show ?thesis using sp
      by (auto simp add: download_name_def replace_ext_def match_ext_def)
  qed
qed

subsection \<open>The segments, case by case\<close>

lemma submit_start_no_file:
  "fileInput_files s = [] \<Longrightarrow>
     submit_start s = (alert ''Please select a file to upload.'' (cleared s), Returned)"
  by (simp add: submit_start_def cleared_def Let_def)

lemma submit_start_bad_id:
  "fileInput_files s \<noteq> [] \<Longrightarrow> \<not> test_numeric (app_id_value s) \<Longrightarrow>
     submit_start s = (alert ''Please choose a numeric App ID.'' (cleared s), Returned)"
  by (simp add: submit_start_def cleared_def Let_def test_numeric_def)

lemma submit_start_sent:
  assumes "fileInput_files s \<noteq> []" and "test_numeric (app_id_value s)"
  shows "submit_start s = (sent ''/upload-file/'' (cleared s), Awaiting SubmitFetch)"
proof -
  from assms(2) have "app_id_value s \<noteq> []" by (auto simp: test_numeric_def)
  with assms show ?thesis
    by (simp add: submit_start_def sent_def cleared_def Let_def fd_append_def hd_conv_nth
        showSpinner_def fetch_def)
qed

lemma submit_start_cases:
  "submit_start s =
     (if fileInput_files s = []
        then (alert ''Please select a file to upload.'' (cleared s), Returned)
      else if \<not> test_numeric (app_id_value s)
        then (alert ''Please choose a numeric App ID.'' (cleared s), Returned)
      else (sent ''/upload-file/'' (cleared s), Awaiting SubmitFetch))"
  by (simp add: submit_start_no_file submit_start_bad_id submit_start_sent)

lemma submit_after_fetch_rejected:
  "submit_after_fetch (Rejected err) s =
     (hideSpinner (alert ''Network or unexpected error while uploading.'' (console_error err s)),
      Returned)"
  by (simp add: submit_after_fetch_def submit_try_def)

lemma submit_after_fetch_ok:
  "ok resp \<Longrightarrow> submit_after_fetch (Fulfilled resp) s = (s, Awaiting (SubmitBlob resp))"
  by (simp add: submit_after_fetch_def submit_try_def)

lemma submit_after_fetch_not_ok:
  "\<not> ok resp \<Longrightarrow>
     submit_after_fetch (Fulfilled resp) s =
       (s, Awaiting (SubmitJson resp (''Error: '' @ show_nat (status resp))))"
  by (simp add: submit_after_fetch_def submit_try_def Let_def)

lemma submit_after_blob_rejected:
  "submit_after_blob (Rejected err) s =
     (hideSpinner (alert ''Network or unexpected error while uploading.'' (console_error err s)),
      Returned)"
  by (simp add: submit_after_blob_def submit_try_def)

lemma submit_after_blob_no_file:
  "fileInput_files s = [] \<Longrightarrow>
   submit_after_blob (Fulfilled b) s =
     (hideSpinner (alert ''Network or unexpected error while uploading.''
        (console_error TypeError (linked b s))), Returned)"
  by (simp add: submit_after_blob_def submit_try_def createObjectURL_def linked_def)

lemma submit_after_blob_file:
  "fileInput_files s = f # fs \<Longrightarrow>
   submit_after_blob (Fulfilled b) s =
     (hideSpinner ((linked b s)\<lparr>downloadLink_download := download_name (name f),
                                result_display := ''block''\<rparr>), Returned)"
  by (simp add: submit_after_blob_def submit_try_def createObjectURL_def linked_def Let_def)

lemma submit_after_json_eq:
  "submit_after_json msg r s =
     (hideSpinner (alert (case error_message msg r of Inl err \<Rightarrow> msg | Inr m \<Rightarrow> m) s),
      Returned)"
  by (simp add: submit_after_json_def submit_try_def Let_def)

lemma debug_start_cases:
  "debug_start s =
     (if fileInput_files s = []
      then (alert ''Please select a file to upload for debug.''
              (s\<lparr>debugResponse_textContent := []\<rparr>), Returned)
      else (sent ''/debug-form/'' (s\<lparr>debugResponse_textContent := []\<rparr>), Awaiting DebugFetch))"
  by (simp add: debug_start_def sent_def Let_def fd_append_def hd_conv_nth showSpinner_def
      fetch_def)

lemma debug_after_fetch_rejected:
  "debug_after_fetch (Rejected err) s = (debug_failed err s, Returned)"
  by (simp add: debug_after_fetch_def debug_try_def debug_failed_def)

lemma debug_after_fetch_fulfilled:
  "debug_after_fetch (Fulfilled resp) s = (s, Awaiting (DebugJson resp))"
  by (simp add: debug_after_fetch_def debug_try_def)

lemma debug_after_json_rejected:
  "debug_after_json (Rejected err) s = (debug_failed err s, Returned)"
  by (simp add: debug_after_json_def debug_try_def debug_failed_def)

lemma debug_after_json_fulfilled:
  "debug_after_json (Fulfilled j) s =
     (hideSpinner (s\<lparr>debugResponse_textContent := json_stringify_pretty j\<rparr>), Returned)"
  by (simp add: debug_after_json_def debug_try_def)

lemma resume_simps:
  "resume net SubmitFetch s = submit_after_fetch net s"
  "resume net (SubmitBlob resp) s = submit_after_blob (blob_body resp) s"
  "resume net (SubmitJson resp msg) s = submit_after_json msg (json_body resp) s"
  "resume net DebugFetch s = debug_after_fetch net s"
  "resume net (DebugJson resp) s = debug_after_json (json_body resp) s"
  by (simp_all add: resume_def)

lemma run_handler_simps:
  "run_handler net (s, Returned) = (s, Returned)"
  "run_handler net (s, Threw err) = (s, Threw err)"
  "run_handler net (s, Awaiting k) =
     (case resume net k s of (s2, Awaiting k2) \<Rightarrow> resume net k2 s2 | r2 \<Rightarrow> r2)"
  by (simp_all add: run_handler_def split: prod.splits completion.splits)

subsection \<open>What the steps leave alone\<close>

lemma effect_fields:
  "spinner_display (hideSpinner s) = ''none''"
  "spinner_display (alert m s) = spinner_display s"
  "spinner_display (console_error err s) = spinner_display s"
  "object_urls (hideSpinner s) = object_urls s"
  "object_urls (alert m s) = object_urls s"
  "object_urls (console_error err s) = object_urls s"
  "result_display (hideSpinner s) = result_display s"
  "result_display (alert m s) = result_display s"
  "result_display (console_error err s) = result_display s"
  "requests (hideSpinner s) = requests s"
  "requests (alert m s) = requests s"
  "requests (console_error err s) = requests s"
  "alerts (hideSpinner s) = alerts s"
  "alerts (alert m s) = alerts s @ [m]"
  "alerts (console_error err s) = alerts s"
  "downloadLink_href (hideSpinner s) = downloadLink_href s"
  "downloadLink_download (hideSpinner s) = downloadLink_download s"
  "debugResponse_textContent (hideSpinner s) = debugResponse_textContent s"
  by (simp_all add: hideSpinner_def alert_def console_error_def)

lemma cleared_fields:
  "alerts (cleared s) = alerts s"
  "requests (cleared s) = requests s"
  "spinner_display (cleared s) = spinner_display s"
  "fileInput_files (cleared s) = fileInput_files s"
  "product_value (cleared s) = product_value s"
  "version_value (cleared s) = version_value s"
  "app_id_value (cleared s) = app_id_value s"
  "object_urls (cleared s) = object_urls s"
  "result_display (cleared s) = ''none''"
  "debugResponse_textContent (cleared s) = []"
  by (simp_all add: cleared_def)

lemma sent_fields:
  "alerts (sent u s) = alerts s"
  "requests (sent u s) =
     requests s @
     [\<lparr>url = u, http_method = ''POST'',
       body = [(''product'', Text (product_value s)), (''version'', Text (version_value s)),
               (''app_id'', Text (app_id_value s)),
               (''file'', FileEntry (hd (fileInput_files s)))]\<rparr>]"
  "spinner_display (sent u s) = ''block''"
  "fileInput_files (sent u s) = fileInput_files s"
  "object_urls (sent u s) = object_urls s"
  "result_display (sent u s) = result_display s"
  "downloadLink_href (sent u s) = downloadLink_href s"
  "downloadLink_download (sent u s) = downloadLink_download s"
  "debugResponse_textContent (sent u s) = debugResponse_textContent s"
  by (simp_all add: sent_def fetch_def showSpinner_def)

lemma linked_fields:
  "object_urls (linked b s) = object_urls s @ [b]"
  "downloadLink_href (linked b s) = ObjectURL (length (object_urls s))"
  "spinner_display (linked b s) = spinner_display s"
  "requests (linked b s) = requests s"
  "fileInput_files (linked b s) = fileInput_files s"
  by (simp_all add: linked_def)

lemma debug_failed_fields:
  "spinner_display (debug_failed err s) = ''none''"
  "object_urls (debug_failed err s) = object_urls s"
  "requests (debug_failed err s) = requests s"
  "result_display (debug_failed err s) = result_display s"
  "downloadLink_href (debug_failed err s) = downloadLink_href s"
  "downloadLink_download (debug_failed err s) = downloadLink_download s"
  "debugResponse_textContent (debug_failed err s) = ''Error contacting debug endpoint.''"
  by (simp_all add: debug_failed_def hideSpinner_def console_error_def)

text \<open>
  A resumed handler either suspends again and has not touched the page, or it returns
  with the spinner hidden; it never ends with an exception. It sends no request and
  takes nothing out of the store of object URLs.
\<close>

lemma resume_effect:
  "((snd (resume net k s) = Returned \<and> spinner_display (fst (resume net k s)) = ''none'') \<or>
    (\<exists>k'. snd (resume net k s) = Awaiting k' \<and> fst (resume net k s) = s)) \<and>
   requests (fst (resume net k s)) = requests s \<and>
   prefix (object_urls s) (object_urls (fst (resume net k s)))"
proof (cases k)
  case SubmitFetch
  show ?thesis
  proof (cases net)
    case (Fulfilled resp)
    with SubmitFetch show ?thesis
      by (cases "ok resp")
         (simp_all add: resume_simps submit_after_fetch_ok submit_after_fetch_not_ok)
  next
    case (Rejected err)
    with SubmitFetch show ?thesis
      by (simp add: resume_simps submit_after_fetch_rejected effect_fields)
  qed
next
  case (SubmitBlob resp)
  show ?thesis
  proof (cases "blob_body resp")
    case (Fulfilled b)
    with SubmitBlob show ?thesis
      by (cases "fileInput_files s")
         (simp_all add: resume_simps submit_after_blob_no_file submit_after_blob_file
            effect_fields linked_fields)
  next
    case (Rejected err)
    with SubmitBlob show ?thesis
      by (simp add: resume_simps submit_after_blob_rejected effect_fields)
  qed
next
  case (SubmitJson resp msg)
  then show ?thesis by (simp add: resume_simps submit_after_json_eq effect_fields)
next
  case DebugFetch
  then show ?thesis
    by (cases net)
       (simp_all add: resume_simps debug_after_fetch_rejected debug_after_fetch_fulfilled
          debug_failed_fields)
next
  case (DebugJson resp)
  then show ?thesis
    by (cases "json_body resp")
       (simp_all add: resume_simps debug_after_json_rejected debug_after_json_fulfilled
          debug_failed_fields effect_fields)
qed

lemma resume_shape:
  "(snd (resume net k s) = Returned \<and> spinner_display (fst (resume net k s)) = ''none'') \<or>
   (\<exists>k'. snd (resume net k s) = Awaiting k' \<and> fst (resume net k s) = s)"
  using resume_effect[of net k s] by (rule conjunct1)

lemma resume_requests: "requests (fst (resume net k s)) = requests s"
  using resume_effect[of net k s] by simp

lemma resume_object_urls: "prefix (object_urls s) (object_urls (fst (resume net k s)))"
  using resume_effect[of net k s] by simp

lemma run_handler_requests: "requests (fst (run_handler net r)) = requests (fst r)"
proof (cases r)
  case (Pair s c)
  show ?thesis
  proof (cases c)
    case (Awaiting k)
    obtain s2 c2 where r2: "resume net k s = (s2, c2)" by (cases "resume net k s")
    with resume_requests[of net k s] have s2: "requests s2 = requests s" by simp
    show ?thesis
    proof (cases c2)
      case (Awaiting k2)
      with Pair \<open>c = Awaiting k\<close> r2 s2 resume_requests[of net k2 s2] show ?thesis
        by (simp add: run_handler_simps)
    qed (use Pair \<open>c = Awaiting k\<close> r2 s2 in \<open>simp_all add: run_handler_simps\<close>)
  qed (use Pair in \<open>simp_all add: run_handler_simps\<close>)
qed

subsection \<open>Truthiness decides the message\<close>

lemma falsy_no_property: "\<not> truthy j \<Longrightarrow> get_property j key = None"
  by (cases j) (simp_all add: get_property_def)

lemma truthy_and_property:
  "truthy_value (and_property j key) \<longleftrightarrow> truthy_field j key \<noteq> None"
  by (cases "truthy j")
     (auto simp: truthy_value_def and_property_def truthy_field_def falsy_no_property
           split: option.splits)

lemma error_message_cases:
  "(case error_message msg r of Inl err \<Rightarrow> msg | Inr m \<Rightarrow> m) =
     (case r of
        Rejected err \<Rightarrow> msg
      | Fulfilled j \<Rightarrow>
          (case truthy_field j ''error'' of
             Some e \<Rightarrow> (case to_string e of Inl err \<Rightarrow> msg | Inr t \<Rightarrow> ''Error: '' @ t)
           | None \<Rightarrow>
               (case truthy_field j ''detail'' of
                  Some d \<Rightarrow> ''Error: '' @ json_stringify d
                | None \<Rightarrow> msg)))"
  by (auto simp: error_message_def truthy_and_property truthy_field_def
           split: settled.splits option.splits sum.splits if_splits)

subsection \<open>Whole invocations\<close>

lemma submit_handler_no_file:
  "fileInput_files s = [] \<Longrightarrow>
     submit_handler net s = (alert ''Please select a file to upload.'' (cleared s), Returned)"
  by (simp add: submit_handler_def submit_start_no_file run_handler_simps)

lemma submit_handler_bad_id:
  "fileInput_files s \<noteq> [] \<Longrightarrow> \<not> test_numeric (app_id_value s) \<Longrightarrow>
     submit_handler net s = (alert ''Please choose a numeric App ID.'' (cleared s), Returned)"
  by (simp add: submit_handler_def submit_start_bad_id run_handler_simps)

lemma submit_handler_processed:
  assumes "fileInput_files s = f # fs" and "test_numeric (app_id_value s)"
    and "ok resp" and "blob_body resp = Fulfilled b"
  shows "submit_handler (Fulfilled resp) s =
           (hideSpinner ((linked b (sent ''/upload-file/'' (cleared s)))
              \<lparr>downloadLink_download := download_name (name f), result_display := ''block''\<rparr>),
            Returned)"
  using assms
  by (simp add: submit_handler_def submit_start_sent run_handler_simps resume_simps
      submit_after_fetch_ok submit_after_blob_file sent_fields cleared_fields)

lemma submit_handler_refused:
  assumes "fileInput_files s \<noteq> []" and "test_numeric (app_id_value s)" and "\<not> ok resp"
    and "msg = ''Error: '' @ show_nat (status resp)"
  shows "submit_handler (Fulfilled resp) s =
           (hideSpinner
              (alert (case error_message msg (json_body resp) of Inl err \<Rightarrow> msg | Inr m \<Rightarrow> m)
                 (sent ''/upload-file/'' (cleared s))),
            Returned)"
  using assms(1-3) unfolding assms(4)
  by (simp add: submit_handler_def submit_start_sent run_handler_simps resume_simps
      submit_after_fetch_not_ok submit_after_json_eq cong: sum.case_cong)

lemma debug_handler_no_file:
  "fileInput_files s = [] \<Longrightarrow>
     debug_handler net s =
       (alert ''Please select a file to upload for debug.''
          (s\<lparr>debugResponse_textContent := []\<rparr>), Returned)"
  by (simp add: debug_handler_def debug_start_cases run_handler_simps)

lemma debug_handler_sent:
  "fileInput_files s \<noteq> [] \<Longrightarrow>
     debug_handler net s =
       (case net of
          Rejected err \<Rightarrow>
            (debug_failed err (sent ''/debug-form/'' (s\<lparr>debugResponse_textContent := []\<rparr>)),
             Returned)
        | Fulfilled resp \<Rightarrow>
            (case json_body resp of
               Rejected err \<Rightarrow>
                 (debug_failed err (sent ''/debug-form/'' (s\<lparr>debugResponse_textContent := []\<rparr>)),
                  Returned)
             | Fulfilled j \<Rightarrow>
                 (hideSpinner ((sent ''/debug-form/'' (s\<lparr>debugResponse_textContent := []\<rparr>))
                    \<lparr>debugResponse_textContent := json_stringify_pretty j\<rparr>),
                  Returned)))"
  by (simp add: debug_handler_def debug_start_cases run_handler_simps resume_simps
      debug_after_fetch_rejected debug_after_fetch_fulfilled debug_after_json_rejected
      debug_after_json_fulfilled split: settled.splits)

subsection \<open>The spinner and the suspended handlers\<close>

lemma spawn_simps:
  "spawn (s, Returned) = []"
  "spawn (s, Awaiting k) = [k]"
  "spawn (s, Threw err) = []"
  by (simp_all add: spawn_def)

lemma start_spinner:
  "spawn (submit_start s) = [] \<and> spinner_display (fst (submit_start s)) = spinner_display s \<or>
   length (spawn (submit_start s)) = 1 \<and> spinner_display (fst (submit_start s)) = ''block''"
  "spawn (debug_start s) = [] \<and> spinner_display (fst (debug_start s)) = spinner_display s \<or>
   length (spawn (debug_start s)) = 1 \<and> spinner_display (fst (debug_start s)) = ''block''"
  by (simp_all add: submit_start_cases debug_start_cases sent_fields cleared_fields
      effect_fields spawn_simps)

lemma resume_spinner:
  "spawn (resume net k s) = [] \<and> spinner_display (fst (resume net k s)) = ''none'' \<or>
   length (spawn (resume net k s)) = 1 \<and> fst (resume net k s) = s"
  using resume_shape[of net k s] by (auto simp: spawn_def)

lemma fire_Settle:
  assumes "fire (Settle i net) w = Some w'"
  shows "i < length (pending w) \<and>
         w' = \<lparr>doc = fst (resume net (pending w ! i) (doc w)),
               pending = take i (pending w) @ spawn (resume net (pending w ! i) (doc w)) @
                         drop (Suc i) (pending w)\<rparr>"
  using assms by (auto simp: Let_def split: if_splits)

lemma fire_start:
  "fire Submit w = Some w' \<Longrightarrow>
     w' = \<lparr>doc = fst (submit_start (doc w)), pending = pending w @ spawn (submit_start (doc w))\<rparr>"
  "fire DebugClick w = Some w' \<Longrightarrow>
     w' = \<lparr>doc = fst (debug_start (doc w)), pending = pending w @ spawn (debug_start (doc w))\<rparr>"
  by (simp_all add: Let_def)

lemma started_calm:
  assumes "calm w"
    and "ks = [] \<and> spinner_display s' = spinner_display (doc w) \<or>
         length ks = 1 \<and> spinner_display s' = ''block''"
  shows "calm \<lparr>doc = s', pending = pending w @ ks\<rparr>"
  using assms by (auto simp: calm_def)

lemma settled_calm:
  assumes "calm w"
    and "ks = [] \<and> spinner_display s' = ''none'' \<or> length ks = 1 \<and> s' = doc w"
  shows "calm \<lparr>doc = s', pending = take i (pending w) @ ks @ drop (Suc i) (pending w)\<rparr>"
  using assms by (auto simp: calm_def)

lemma fire_calm:
  assumes "fire ev w = Some w'" and "calm w"
  shows "calm w'"
proof (cases ev)
  case (UserInput p v a fs)
  with assms show ?thesis by (auto simp: calm_def)
next
  case Submit
  with assms(1) have "fire Submit w = Some w'" by simp
  from fire_start(1)[OF this] have "w' =
      \<lparr>doc = fst (submit_start (doc w)), pending = pending w @ spawn (submit_start (doc w))\<rparr>" .
  moreover note started_calm[OF assms(2) start_spinner(1)[of "doc w"]]
  ultimately show ?thesis by (simp only:)
next
  case DebugClick
  with assms(1) have "fire DebugClick w = Some w'" by simp
  from fire_start(2)[OF this] have "w' =
      \<lparr>doc = fst (debug_start (doc w)), pending = pending w @ spawn (debug_start (doc w))\<rparr>" .
  moreover note started_calm[OF assms(2) start_spinner(2)[of "doc w"]]
  ultimately show ?thesis by (simp only:)
next
  case (Settle i net)
  with assms(1) have "fire (Settle i net) w = Some w'" by simp
  from fire_Settle[OF this] have "w' =
      \<lparr>doc = fst (resume net (pending w ! i) (doc w)),
        pending = take i (pending w) @ spawn (resume net (pending w ! i) (doc w)) @
                  drop (Suc i) (pending w)\<rparr>" by (rule conjunct2)
  moreover note settled_calm[OF assms(2) resume_spinner[of net "pending w ! i" "doc w"], of i]
  ultimately show ?thesis by (simp only:)
qed

lemma started_in_step:
  assumes "in_step w" and "pending w = []"
    and "ks = [] \<and> spinner_display s' = spinner_display (doc w) \<or>
         length ks = 1 \<and> spinner_display s' = ''block''"
  shows "in_step \<lparr>doc = s', pending = pending w @ ks\<rparr>"
  using assms by (auto simp: in_step_def)

lemma settled_in_step:
  assumes "in_step w" and "i < length (pending w)"
    and "ks = [] \<and> spinner_display s' = ''none'' \<or> length ks = 1 \<and> s' = doc w"
  shows "in_step \<lparr>doc = s', pending = take i (pending w) @ ks @ drop (Suc i) (pending w)\<rparr>"
proof -
  from assms(1,2) have "length (pending w) = 1" and "i = 0"
    and "spinner_display (doc w) = ''block''"
    by (auto simp: in_step_def)
  with assms(3) show ?thesis by (auto simp: in_step_def)
qed

lemma fire_in_step:
  assumes "fire ev w = Some w'" and "in_step w" and "starts_action ev \<longrightarrow> pending w = []"
  shows "in_step w'"
proof (cases ev)
  case (UserInput p v a fs)
  with assms show ?thesis by (auto simp: in_step_def)
next
  case Submit
  with assms(3) have idle: "pending w = []" by simp
  from Submit assms(1) have "fire Submit w = Some w'" by simp
  from fire_start(1)[OF this] have "w' =
      \<lparr>doc = fst (submit_start (doc w)), pending = pending w @ spawn (submit_start (doc w))\<rparr>" .
  moreover note started_in_step[OF assms(2) idle start_spinner(1)[of "doc w"]]
  ultimately show ?thesis by (simp only:)
next
  case DebugClick
  with assms(3) have idle: "pending w = []" by simp
  from DebugClick assms(1) have "fire DebugClick w = Some w'" by simp
  from fire_start(2)[OF this] have "w' =
      \<lparr>doc = fst (debug_start (doc w)), pending = pending w @ spawn (debug_start (doc w))\<rparr>" .
  moreover note started_in_step[OF assms(2) idle start_spinner(2)[of "doc w"]]
  ultimately show ?thesis by (simp only:)
next
  case (Settle i net)
  with assms(1) have "fire (Settle i net) w = Some w'" by simp
  from fire_Settle[OF this] have i: "i < length (pending w)" and "w' =
      \<lparr>doc = fst (resume net (pending w ! i) (doc w)),
        pending = take i (pending w) @ spawn (resume net (pending w ! i) (doc w)) @
                  drop (Suc i) (pending w)\<rparr>" by simp_all
  moreover note settled_in_step[OF assms(2) i resume_spinner[of net "pending w ! i" "doc w"]]
  ultimately show ?thesis by (simp only:)
qed

lemma run_calm: "run evs w = Some w' \<Longrightarrow> calm w \<Longrightarrow> calm w'"
proof (induction evs arbitrary: w)
  case Nil
  then show ?case by simp
next
  case (Cons ev evs)
  then obtain w1 where f: "fire ev w = Some w1" and r: "run evs w1 = Some w'"
    by (auto split: option.splits)
  from fire_calm[OF f Cons.prems(2)] have "calm w1" .
  with Cons.IH[OF r] show ?case .
qed

lemma run_in_step:
  "run evs w = Some w' \<Longrightarrow> one_at_a_time evs w \<Longrightarrow> in_step w \<Longrightarrow> in_step w'"
proof (induction evs arbitrary: w)
  case Nil
  then show ?case by simp
next
  case (Cons ev evs)
  then obtain w1 where f: "fire ev w = Some w1" and r: "run evs w1 = Some w'"
    by (auto split: option.splits)
  from Cons.prems(2) f have s: "starts_action ev \<longrightarrow> pending w = []"
    and o: "one_at_a_time evs w1" by auto
  from fire_in_step[OF f Cons.prems(3) s] have "in_step w1" .
  with Cons.IH[OF r o] show ?case .
qed

lemma fire_dispatch_shows:
  assumes "fire ev w = Some w'" and "starts_action ev"
    and "requests (doc w') \<noteq> requests (doc w)"
  shows "spinner_display (doc w') = ''block''"
proof (cases ev)
  case Submit
  with assms(1) have "fire Submit w = Some w'" by simp
  from fire_start(1)[OF this] have "doc w' = fst (submit_start (doc w))" by simp
  with assms(3) show ?thesis
    by (simp add: submit_start_cases sent_fields cleared_fields effect_fields
        split: if_splits)
next
  case DebugClick
  with assms(1) have "fire DebugClick w = Some w'" by simp
  from fire_start(2)[OF this] have "doc w' = fst (debug_start (doc w))" by simp
  with assms(3) show ?thesis
    by (simp add: debug_start_cases sent_fields effect_fields split: if_splits)
qed (use assms(2) in simp_all)

lemma fire_completion_hides:
  assumes "fire (Settle i net) w = Some w'" and "length (pending w') < length (pending w)"
  shows "spinner_display (doc w') = ''none''"
proof -
  from fire_Settle[OF assms(1)] have i: "i < length (pending w)"
    and d: "doc w' = fst (resume net (pending w ! i) (doc w))"
    and p: "pending w' = take i (pending w) @ spawn (resume net (pending w ! i) (doc w)) @
                         drop (Suc i) (pending w)"
    by simp_all
  from resume_spinner[of net "pending w ! i" "doc w"] show ?thesis
  proof
    assume "spawn (resume net (pending w ! i) (doc w)) = [] \<and>
            spinner_display (fst (resume net (pending w ! i) (doc w))) = ''none''"
    with d show ?thesis by simp
  next
    assume "length (spawn (resume net (pending w ! i) (doc w))) = 1 \<and>
            fst (resume net (pending w ! i) (doc w)) = doc w"
    with p i have "length (pending w') = length (pending w)" by simp
    with assms(2) show ?thesis by simp
  qed
qed

subsection \<open>The store of object URLs\<close>

lemma fire_object_urls:
  assumes "fire ev w = Some w'"
  shows "prefix (object_urls (doc w)) (object_urls (doc w'))"
proof (cases ev)
  case (UserInput p v a fs)
  with assms show ?thesis by auto
next
  case Submit
  with assms have "fire Submit w = Some w'" by simp
  from fire_start(1)[OF this] have "doc w' = fst (submit_start (doc w))" by simp
  then show ?thesis
    by (simp add: submit_start_cases sent_fields cleared_fields effect_fields)
next
  case DebugClick
  with assms have "fire DebugClick w = Some w'" by simp
  from fire_start(2)[OF this] have "doc w' = fst (debug_start (doc w))" by simp
  then show ?thesis
    by (simp add: debug_start_cases sent_fields effect_fields)
next
  case (Settle i net)
  with assms have "fire (Settle i net) w = Some w'" by simp
  from fire_Settle[OF this] have "doc w' = fst (resume net (pending w ! i) (doc w))" by simp
  then show ?thesis by (simp add: resume_object_urls)
qed

lemma run_object_urls:
  "run evs w = Some w' \<Longrightarrow> prefix (object_urls (doc w)) (object_urls (doc w'))"
proof (induction evs arbitrary: w)
  case Nil
  then show ?case by simp
next
  case (Cons ev evs)
  then obtain w1 where f: "fire ev w = Some w1" and r: "run evs w1 = Some w'"
    by (auto split: option.splits)
  from fire_object_urls[OF f] Cons.IH[OF r] show ?case
    by (rule prefix_order.trans)
qed

section \<open>The claims\<close>

text \<open>
  Claim C1, as amended. After a successful primary upload (a 2xx response whose body is
  read as a blob) of the file named \<open>n\<close>, the selection unchanged until the response
  is handled, the suggested download name is the specification's
  \<open>base + "_processed" + ext\<close>, split at the last dot of \<open>n\<close>, provided that the last
  dot is followed by at least one character and by no slash. For every other name, among
  them a name without a dot and a name that ends in a dot, it is \<open>n + "_processed"\<close>.
\<close>

theorem download_name_of_upload:
  assumes "fileInput_files s = f # fs"
    and "app_id_value s \<noteq> []" and "set (app_id_value s) \<subseteq> set ''0123456789''"
    and "ok resp" and "blob_body resp = Fulfilled b"
  shows "downloadLink_download (fst (submit_handler (Fulfilled resp) s)) =
           (if name f \<noteq> [] \<and> last (name f) \<noteq> CHR ''.'' \<and>
               CHR ''/'' \<notin> set (snd (spec_split (name f)))
            then spec_download_name (name f)
            else name f @ ''_processed'')"
proof -
  from assms(2,3) have "test_numeric (app_id_value s)"
    by (simp only: test_numeric_iff) simp
  from submit_handler_processed[OF assms(1) this assms(4,5)]
  have "downloadLink_download (fst (submit_handler (Fulfilled resp) s)) = download_name (name f)"
    by (simp add: effect_fields)
  then show ?thesis by (simp only: download_name_cases)
qed

theorem download_name_of_upload_witness:
  "downloadLink_download (fst (submit_handler (Fulfilled processed_response) example_page)) =
     ''report_processed.pdf''"
  using download_name_of_upload[of example_page "\<lparr>name = ''report.pdf'', content = ''%PDF''\<rparr>" "[]"
      processed_response "''processed''"]
  by (simp add: example_page_def processed_response_def ok_def spec_download_name_def
      spec_split_def)

text \<open>
  Claim C1 as stated fails for a name that ends in a dot: the regular expression asks for
  at least one character after the dot, so \<open>report.\<close> is offered as \<open>report._processed\<close>,
  where splitting at the last dot gives \<open>report_processed.\<close>.
\<close>

theorem download_name_trailing_dot:
  "downloadLink_download
     (fst (submit_handler (Fulfilled processed_response)
        (example_page\<lparr>fileInput_files := [\<lparr>name = ''report.'', content = ''%PDF''\<rparr>]\<rparr>))) =
     ''report._processed'' \<and>
   spec_download_name ''report.'' = ''report_processed.''"
  by code_simp

text \<open>
  Claim C2, as amended. For a primary upload answered with a status outside 200 to 299,
  the alert shows: \<open>Error: \<close> and the text of the field \<open>error\<close>, if the body parses
  as JSON and has a field \<open>error\<close> with a truthy value (not null, false, zero or the
  empty string) whose conversion to text does not throw; otherwise, when the body has no
  truthy field \<open>error\<close>, \<open>Error: \<close> and the JSON serialization of the field \<open>detail\<close>
  if that is present and truthy; and \<open>Error: \<close> and the status code in every other
  case, also when the body does not parse.
\<close>

theorem error_message_priority:
  assumes "fileInput_files s \<noteq> []"
    and "app_id_value s \<noteq> []" and "set (app_id_value s) \<subseteq> set ''0123456789''"
    and "\<not> ok resp"
  shows "alerts (fst (submit_handler (Fulfilled resp) s)) =
           alerts s @
           [case json_body resp of
              Rejected err \<Rightarrow> ''Error: '' @ show_nat (status resp)
            | Fulfilled j \<Rightarrow>
                (case truthy_field j ''error'' of
                   Some e \<Rightarrow>
                     (case to_string e of
                        Inl err \<Rightarrow> ''Error: '' @ show_nat (status resp)
                      | Inr t \<Rightarrow> ''Error: '' @ t)
                 | None \<Rightarrow>
                     (case truthy_field j ''detail'' of
                        Some d \<Rightarrow> ''Error: '' @ json_stringify d
                      | None \<Rightarrow> ''Error: '' @ show_nat (status resp)))]"
proof -
  from assms(2,3) have "test_numeric (app_id_value s)"
    by (simp only: test_numeric_iff) simp
  from submit_handler_refused[OF assms(1) this assms(4) refl]
  have "alerts (fst (submit_handler (Fulfilled resp) s)) =
          alerts s @
          [case error_message (''Error: '' @ show_nat (status resp)) (json_body resp) of
             Inl err \<Rightarrow> ''Error: '' @ show_nat (status resp)
           | Inr m \<Rightarrow> m]"
    by (simp add: effect_fields sent_fields cleared_fields)
  then show ?thesis by (simp only: error_message_cases)
qed

theorem error_message_priority_witness:
  "alerts (fst (submit_handler
      (Fulfilled (error_response (JObj [(''error'', JStr ''bad input'')]))) example_page)) =
     [''Error: bad input'']"
  using error_message_priority[of example_page
      "error_response (JObj [(''error'', JStr ''bad input'')])"]
  by (simp add: example_page_def error_response_def ok_def truthy_field_def get_property_def)

text \<open>
  Claim C2 as stated fails for a body that contains the field \<open>error\<close> with a falsy
  value: for \<open>{"error": ""}\<close> and status 400 the specification's choice is the text
  \<open>Error: \<close>, the script shows \<open>Error: 400\<close>.
\<close>

theorem error_message_empty_error:
  "alerts (fst (submit_handler (Fulfilled (error_response (JObj [(''error'', JStr [])])))
      example_page)) = [''Error: 400''] \<and>
   spec_error_message 400 (Fulfilled (JObj [(''error'', JStr [])])) = Inr ''Error: ''"
  by code_simp

text \<open>
  Claim C3, as amended. For both actions, a submit or debug click that dispatches a
  request leaves the spinner shown, and the completion of a handler leaves it hidden, on
  every outcome path (success, application error, transport error). Starting from a page
  with no handler suspended and the spinner not shown: when the actions are invoked one
  at a time (no submit or debug click while a handler is suspended), the spinner is
  shown exactly while a request is in flight; under concurrent invocation it is shown
  only while some request is in flight, and a completion hides it even when another
  request is still in flight.
\<close>

theorem spinner_while_pending:
  "(fire ev w = Some w' \<and> starts_action ev \<and> requests (doc w') \<noteq> requests (doc w) \<longrightarrow>
      spinner_display (doc w') = ''block'') \<and>
   (fire (Settle i net) w = Some w' \<and> length (pending w') < length (pending w) \<longrightarrow>
      spinner_display (doc w') = ''none'') \<and>
   (pending w0 = [] \<and> spinner_display (doc w0) \<noteq> ''block'' \<and> run evs w0 = Some w1 \<longrightarrow>
      (spinner_display (doc w1) = ''block'' \<longrightarrow> pending w1 \<noteq> []) \<and>
      (one_at_a_time evs w0 \<longrightarrow>
         (spinner_display (doc w1) = ''block'') = (pending w1 \<noteq> [])))"
proof (intro conjI impI)
  assume "fire ev w = Some w' \<and> starts_action ev \<and> requests (doc w') \<noteq> requests (doc w)"
  then show "spinner_display (doc w') = ''block''"
    using fire_dispatch_shows[of ev w w'] by blast
next
  assume "fire (Settle i net) w = Some w' \<and> length (pending w') < length (pending w)"
  then show "spinner_display (doc w') = ''none''"
    using fire_completion_hides[of i net w w'] by blast
next
  assume a: "pending w0 = [] \<and> spinner_display (doc w0) \<noteq> ''block'' \<and> run evs w0 = Some w1"
  then have "calm w0" by (simp add: calm_def)
  with a run_calm[of evs w0 w1] have "calm w1" by blast
  moreover assume "spinner_display (doc w1) = ''block''"
  ultimately show "pending w1 \<noteq> []" by (simp add: calm_def)
next
  assume a: "pending w0 = [] \<and> spinner_display (doc w0) \<noteq> ''block'' \<and> run evs w0 = Some w1"
    and o: "one_at_a_time evs w0"
  from a have "in_step w0" by (simp add: in_step_def)
  with a o run_in_step[of evs w0 w1] have "in_step w1" by blast
  then show "(spinner_display (doc w1) = ''block'') = (pending w1 \<noteq> [])"
    by (auto simp: in_step_def)
qed

theorem spinner_while_pending_witness:
  "fire Submit idle_browser =
     Some \<lparr>doc = sent ''/upload-file/'' (cleared example_page), pending = [SubmitFetch]\<rparr> \<and>
   spinner_display (sent ''/upload-file/'' (cleared example_page)) = ''block'' \<and>
   fire (Settle 0 (Rejected NetworkFailure))
     \<lparr>doc = sent ''/upload-file/'' (cleared example_page), pending = [SubmitFetch]\<rparr> =
     Some \<lparr>doc = hideSpinner (alert ''Network or unexpected error while uploading.''
                   (console_error NetworkFailure (sent ''/upload-file/'' (cleared example_page)))),
           pending = []\<rparr> \<and>
   spinner_display (hideSpinner (alert ''Network or unexpected error while uploading.''
     (console_error NetworkFailure (sent ''/upload-file/'' (cleared example_page))))) = ''none'' \<and>
   run [Submit, Settle 0 (Fulfilled processed_response)] idle_browser =
     Some \<lparr>doc = sent ''/upload-file/'' (cleared example_page),
           pending = [SubmitBlob processed_response]\<rparr> \<and>
   one_at_a_time [Submit, Settle 0 (Fulfilled processed_response)] idle_browser"
proof -
  have f1: "fire Submit idle_browser =
     Some \<lparr>doc = sent ''/upload-file/'' (cleared example_page), pending = [SubmitFetch]\<rparr>"
    by code_simp
  have q1: "requests (sent ''/upload-file/'' (cleared example_page)) \<noteq> requests (doc idle_browser)"
    by (simp add: sent_fields cleared_fields idle_browser_def example_page_def)
  have f2: "fire (Settle 0 (Rejected NetworkFailure))
     \<lparr>doc = sent ''/upload-file/'' (cleared example_page), pending = [SubmitFetch]\<rparr> =
     Some \<lparr>doc = hideSpinner (alert ''Network or unexpected error while uploading.''
                   (console_error NetworkFailure (sent ''/upload-file/'' (cleared example_page)))),
           pending = []\<rparr>"
    by code_simp
  have r: "run [Submit, Settle 0 (Fulfilled processed_response)] idle_browser =
     Some \<lparr>doc = sent ''/upload-file/'' (cleared example_page),
           pending = [SubmitBlob processed_response]\<rparr>"
    by code_simp
  have o: "one_at_a_time [Submit, Settle 0 (Fulfilled processed_response)] idle_browser"
    by code_simp
  have i: "pending idle_browser = []" "spinner_display (doc idle_browser) \<noteq> ''block''"
    by (simp_all add: idle_browser_def example_page_def)
  from spinner_while_pending[of Submit idle_browser
      "\<lparr>doc = sent ''/upload-file/'' (cleared example_page), pending = [SubmitFetch]\<rparr>"
      0 "Rejected NetworkFailure" idle_browser
      "[Submit, Settle 0 (Fulfilled processed_response)]"
      "\<lparr>doc = sent ''/upload-file/'' (cleared example_page),
        pending = [SubmitBlob processed_response]\<rparr>"]
    spinner_while_pending[of "Settle 0 (Rejected NetworkFailure)"
      "\<lparr>doc = sent ''/upload-file/'' (cleared example_page), pending = [SubmitFetch]\<rparr>"
      "\<lparr>doc = hideSpinner (alert ''Network or unexpected error while uploading.''
                   (console_error NetworkFailure (sent ''/upload-file/'' (cleared example_page)))),
           pending = []\<rparr>"
      0 "Rejected NetworkFailure" idle_browser
      "[Submit, Settle 0 (Fulfilled processed_response)]"
      "\<lparr>doc = sent ''/upload-file/'' (cleared example_page),
        pending = [SubmitBlob processed_response]\<rparr>"]
    f1 q1 f2 r o i
  show ?thesis
    by (simp del: run.simps one_at_a_time.simps fire.simps add: effect_fields sent_fields)
qed

text \<open>
  Claim C3 as stated fails under concurrent invocation: submit, then a debug click, then
  the upload's request fails. The debug request is still in flight and the spinner is
  hidden.
\<close>

theorem spinner_hidden_while_pending:
  "map_option pending (run [Submit, DebugClick, Settle 0 (Rejected NetworkFailure)] idle_browser) =
     Some [DebugFetch] \<and>
   map_option (spinner_display \<circ> doc)
     (run [Submit, DebugClick, Settle 0 (Rejected NetworkFailure)] idle_browser) = Some ''none''"
  by code_simp

text \<open>
  Claim C4. A debug click with a file selected ends with the debug output showing the
  pretty-printed JSON of the parsed response body, whatever the status of the response.
  When the request fails, or the body cannot be read as JSON, the output is the fixed
  text \<open>Error contacting debug endpoint.\<close> instead.
\<close>

theorem debug_output:
  assumes "fileInput_files s \<noteq> []"
  shows "debugResponse_textContent (fst (debug_handler net s)) =
           (case net of
              Rejected err \<Rightarrow> ''Error contacting debug endpoint.''
            | Fulfilled resp \<Rightarrow>
                (case json_body resp of
                   Rejected err \<Rightarrow> ''Error contacting debug endpoint.''
                 | Fulfilled j \<Rightarrow> json_stringify_pretty j))"
  by (simp add: debug_handler_sent[OF assms] debug_failed_fields effect_fields
      split: settled.splits)

theorem debug_output_witness:
  "debugResponse_textContent
     (fst (debug_handler (Fulfilled (error_response (JObj [(''app_id'', JStr ''42'')])))
        example_page)) =
     ''{'' @ [CHR 0x0A] @ ''  '' @ [CHR 0x22] @ ''app_id'' @ [CHR 0x22] @ '': '' @
     [CHR 0x22] @ ''42'' @ [CHR 0x22] @ [CHR 0x0A] @ ''}''"
  using debug_output[of example_page
      "Fulfilled (error_response (JObj [(''app_id'', JStr ''42'')]))"]
  by (simp add: example_page_def error_response_def json_stringify_pretty_def wrap_def
      quote_def quote_char_def)

text \<open>
  Claim C5. With no file selected, the submit handler and the debug handler each show
  their alert, issue no request, and return without an exception.
\<close>

theorem no_file_no_request:
  assumes "fileInput_files s = []"
  shows "snd (submit_handler net s) = Returned \<and>
         requests (fst (submit_handler net s)) = requests s \<and>
         alerts (fst (submit_handler net s)) = alerts s @ [''Please select a file to upload.''] \<and>
         snd (debug_handler net s) = Returned \<and>
         requests (fst (debug_handler net s)) = requests s \<and>
         alerts (fst (debug_handler net s)) =
           alerts s @ [''Please select a file to upload for debug.'']"
  by (simp add: submit_handler_no_file[OF assms] debug_handler_no_file[OF assms]
      effect_fields cleared_fields)

theorem no_file_no_request_witness:
  "snd (submit_handler (Fulfilled processed_response) (example_page\<lparr>fileInput_files := []\<rparr>)) =
     Returned \<and>
   requests (fst (submit_handler (Fulfilled processed_response)
     (example_page\<lparr>fileInput_files := []\<rparr>))) = [] \<and>
   alerts (fst (submit_handler (Fulfilled processed_response)
     (example_page\<lparr>fileInput_files := []\<rparr>))) = [''Please select a file to upload.''] \<and>
   snd (debug_handler (Fulfilled processed_response) (example_page\<lparr>fileInput_files := []\<rparr>)) =
     Returned \<and>
   requests (fst (debug_handler (Fulfilled processed_response)
     (example_page\<lparr>fileInput_files := []\<rparr>))) = [] \<and>
   alerts (fst (debug_handler (Fulfilled processed_response)
     (example_page\<lparr>fileInput_files := []\<rparr>))) = [''Please select a file to upload for debug.'']"
  using no_file_no_request[of "example_page\<lparr>fileInput_files := []\<rparr>"
      "Fulfilled processed_response"]
  by (simp add: example_page_def)

text \<open>
  Claim C6. A primary submit with a file selected and an \<open>app_id\<close> that is empty or has
  a character other than a decimal digit shows the alert and issues no request.
\<close>

theorem bad_app_id_no_request:
  assumes "fileInput_files s \<noteq> []"
    and "app_id_value s = [] \<or> \<not> set (app_id_value s) \<subseteq> set ''0123456789''"
  shows "requests (fst (submit_handler net s)) = requests s \<and>
         alerts (fst (submit_handler net s)) = alerts s @ [''Please choose a numeric App ID.''] \<and>
         snd (submit_handler net s) = Returned"
proof -
  from assms(2) have "\<not> test_numeric (app_id_value s)"
    by (simp only: test_numeric_iff) blast
  from submit_handler_bad_id[OF assms(1) this] show ?thesis
    by (simp add: effect_fields cleared_fields)
qed

theorem bad_app_id_no_request_witness:
  "requests (fst (submit_handler (Fulfilled processed_response)
     (example_page\<lparr>app_id_value := ''12a''\<rparr>))) = [] \<and>
   alerts (fst (submit_handler (Fulfilled processed_response)
     (example_page\<lparr>app_id_value := ''12a''\<rparr>))) = [''Please choose a numeric App ID.'']"
  using bad_app_id_no_request[of "example_page\<lparr>app_id_value := ''12a''\<rparr>"
      "Fulfilled processed_response"]
  by (simp add: example_page_def)

text \<open>
  Claim C7. A debug click with a file selected sends the request to \<open>/debug-form/\<close>
  with the \<open>app_id\<close> as it stands, whatever its content; the format check is made on
  the primary path only.
\<close>

theorem debug_request_sent:
  assumes "fileInput_files s = f # fs"
  shows "requests (fst (debug_handler net s)) =
           requests s @
           [\<lparr>url = ''/debug-form/'', http_method = ''POST'',
             body = [(''product'', Text (product_value s)), (''version'', Text (version_value s)),
                     (''app_id'', Text (app_id_value s)), (''file'', FileEntry f)]\<rparr>]"
  using assms
  by (simp add: debug_handler_def run_handler_requests debug_start_cases sent_fields)

theorem debug_request_sent_witness:
  "requests (fst (debug_handler (Rejected NetworkFailure)
     (example_page\<lparr>app_id_value := ''not a number''\<rparr>))) =
     [\<lparr>url = ''/debug-form/'', http_method = ''POST'',
       body = [(''product'', Text ''alpha''), (''version'', Text ''1.0''),
               (''app_id'', Text ''not a number''),
               (''file'', FileEntry \<lparr>name = ''report.pdf'', content = ''%PDF''\<rparr>)]\<rparr>]"
  using debug_request_sent[of "example_page\<lparr>app_id_value := ''not a number''\<rparr>"
      "\<lparr>name = ''report.pdf'', content = ''%PDF''\<rparr>" "[]" "Rejected NetworkFailure"]
  by (simp add: example_page_def)

text \<open>
  Claim C8. A primary submit that passes both checks sends one request: a POST to
  \<open>/upload-file/\<close> whose body has exactly the four fields \<open>product\<close>, \<open>version\<close>,
  \<open>app_id\<close> and \<open>file\<close>, the selected file under \<open>file\<close>.
\<close>

theorem upload_request_sent:
  assumes "fileInput_files s = f # fs"
    and "app_id_value s \<noteq> []" and "set (app_id_value s) \<subseteq> set ''0123456789''"
  shows "requests (fst (submit_handler net s)) =
           requests s @
           [\<lparr>url = ''/upload-file/'', http_method = ''POST'',
             body = [(''product'', Text (product_value s)), (''version'', Text (version_value s)),
                     (''app_id'', Text (app_id_value s)), (''file'', FileEntry f)]\<rparr>]"
proof -
  from assms(2,3) have "test_numeric (app_id_value s)"
    by (simp only: test_numeric_iff) simp
  with assms(1) show ?thesis
    by (simp add: submit_handler_def run_handler_requests submit_start_sent sent_fields
        cleared_fields)
qed

theorem upload_request_sent_witness:
  "requests (fst (submit_handler (Fulfilled processed_response) example_page)) =
     [\<lparr>url = ''/upload-file/'', http_method = ''POST'',
       body = [(''product'', Text ''alpha''), (''version'', Text ''1.0''),
               (''app_id'', Text ''42''),
               (''file'', FileEntry \<lparr>name = ''report.pdf'', content = ''%PDF''\<rparr>)]\<rparr>]"
  using upload_request_sent[of example_page "\<lparr>name = ''report.pdf'', content = ''%PDF''\<rparr>" "[]"
      "Fulfilled processed_response"]
  by (simp add: example_page_def)

text \<open>
  Claim C9. No event ever takes an entry out of the store of object URLs: after any
  sequence of events the old store is a prefix of the new one. A successful primary
  upload (a 2xx response whose body is read as a blob) adds exactly one entry, a URL that
  was not in the store before, and makes it the target of the download link in place of
  the previous one.
\<close>

theorem object_urls_only_grow:
  "(run evs w = Some w' \<longrightarrow> prefix (object_urls (doc w)) (object_urls (doc w'))) \<and>
   (fileInput_files s \<noteq> [] \<and> app_id_value s \<noteq> [] \<and>
    set (app_id_value s) \<subseteq> set ''0123456789'' \<and> ok resp \<and> blob_body resp = Fulfilled b \<longrightarrow>
      object_urls (fst (submit_handler (Fulfilled resp) s)) = object_urls s @ [b] \<and>
      downloadLink_href (fst (submit_handler (Fulfilled resp) s)) =
        ObjectURL (length (object_urls s)))"
proof (intro conjI impI)
  assume "run evs w = Some w'"
  then show "prefix (object_urls (doc w)) (object_urls (doc w'))" by (rule run_object_urls)
next
  assume a: "fileInput_files s \<noteq> [] \<and> app_id_value s \<noteq> [] \<and>
    set (app_id_value s) \<subseteq> set ''0123456789'' \<and> ok resp \<and> blob_body resp = Fulfilled b"
  then have t: "test_numeric (app_id_value s)" by (simp only: test_numeric_iff) simp
  from a obtain f fs where f: "fileInput_files s = f # fs" by (cases "fileInput_files s") auto
  from a have o: "ok resp" and bb: "blob_body resp = Fulfilled b" by simp_all
  note h = submit_handler_processed[OF f t o bb]
  show "object_urls (fst (submit_handler (Fulfilled resp) s)) = object_urls s @ [b]"
    by (simp add: h effect_fields linked_fields sent_fields cleared_fields)
  show "downloadLink_href (fst (submit_handler (Fulfilled resp) s)) =
        ObjectURL (length (object_urls s))"
    by (simp add: h effect_fields linked_fields sent_fields cleared_fields)
qed

theorem object_urls_only_grow_witness:
  "run [Submit, Settle 0 (Fulfilled processed_response), Settle 0 (Fulfilled processed_response)]
     \<lparr>doc = example_page\<lparr>object_urls := [''earlier'']\<rparr>, pending = []\<rparr> =
     Some \<lparr>doc = fst (submit_handler (Fulfilled processed_response)
                   (example_page\<lparr>object_urls := [''earlier'']\<rparr>)),
           pending = []\<rparr> \<and>
   object_urls (fst (submit_handler (Fulfilled processed_response)
     (example_page\<lparr>object_urls := [''earlier'']\<rparr>))) = [''earlier'', ''processed''] \<and>
   downloadLink_href (fst (submit_handler (Fulfilled processed_response)
     (example_page\<lparr>object_urls := [''earlier'']\<rparr>))) = ObjectURL 1"
proof -
  have r: "run [Submit, Settle 0 (Fulfilled processed_response),
                Settle 0 (Fulfilled processed_response)]
     \<lparr>doc = example_page\<lparr>object_urls := [''earlier'']\<rparr>, pending = []\<rparr> =
     Some \<lparr>doc = fst (submit_handler (Fulfilled processed_response)
                   (example_page\<lparr>object_urls := [''earlier'']\<rparr>)),
           pending = []\<rparr>"
    by code_simp
  from object_urls_only_grow[of
      "[Submit, Settle 0 (Fulfilled processed_response), Settle 0 (Fulfilled processed_response)]"
      "\<lparr>doc = example_page\<lparr>object_urls := [''earlier'']\<rparr>, pending = []\<rparr>"
      "\<lparr>doc = fst (submit_handler (Fulfilled processed_response)
                   (example_page\<lparr>object_urls := [''earlier'']\<rparr>)), pending = []\<rparr>"
      "example_page\<lparr>object_urls := [''earlier'']\<rparr>" processed_response "''processed''"] r
  show ?thesis
    by (simp add: example_page_def processed_response_def ok_def)
qed

text \<open>
  Claim C10. Every primary submit begins by clearing the debug output and hiding the
  result region, before the checks, so also when a check fails and no request is sent. A
  debug click clears the debug output; neither its first segment nor the rest of the
  handler changes the display of the result region or the download link.
\<close>

theorem regions_reset_at_start:
  "debugResponse_textContent (fst (submit_start s)) = [] \<and>
   result_display (fst (submit_start s)) = ''none'' \<and>
   debugResponse_textContent (fst (debug_start s)) = [] \<and>
   result_display (fst (debug_start s)) = result_display s \<and>
   result_display (fst (debug_handler net s)) = result_display s \<and>
   downloadLink_href (fst (debug_handler net s)) = downloadLink_href s \<and>
   downloadLink_download (fst (debug_handler net s)) = downloadLink_download s"
proof -
  have "result_display (fst (debug_handler net s)) = result_display s \<and>
        downloadLink_href (fst (debug_handler net s)) = downloadLink_href s \<and>
        downloadLink_download (fst (debug_handler net s)) = downloadLink_download s"
  proof (cases "fileInput_files s = []")
    case True
    then show ?thesis by (simp add: debug_handler_no_file effect_fields alert_def)
  next
    case False
    then show ?thesis
      by (simp add: debug_handler_sent debug_failed_fields effect_fields sent_fields
          hideSpinner_def split: settled.splits)
  qed
  then show ?thesis
    by (simp add: submit_start_cases debug_start_cases effect_fields sent_fields
        cleared_fields alert_def)
qed

theorem regions_reset_at_start_witness:
  "debugResponse_textContent
     (fst (submit_start (example_page\<lparr>app_id_value := [], result_display := ''block'',
        debugResponse_textContent := ''{}''\<rparr>))) = [] \<and>
   result_display
     (fst (submit_start (example_page\<lparr>app_id_value := [], result_display := ''block'',
        debugResponse_textContent := ''{}''\<rparr>))) = ''none'' \<and>
   requests
     (fst (submit_start (example_page\<lparr>app_id_value := [], result_display := ''block'',
        debugResponse_textContent := ''{}''\<rparr>))) = [] \<and>
   debugResponse_textContent
     (fst (debug_start (example_page\<lparr>app_id_value := [], result_display := ''block'',
        debugResponse_textContent := ''{}''\<rparr>))) = [] \<and>
   result_display
     (fst (debug_handler (Fulfilled processed_response)
        (example_page\<lparr>app_id_value := [], result_display := ''block'',
           debugResponse_textContent := ''{}''\<rparr>))) = ''block''"
  using regions_reset_at_start[of
      "example_page\<lparr>app_id_value := [], result_display := ''block'',
         debugResponse_textContent := ''{}''\<rparr>" "Fulfilled processed_response"]
  by (simp add: example_page_def submit_start_cases test_numeric_def effect_fields
      cleared_fields)

end
